theory Spec2Isabelle
  imports Complex_Main "HOL-Library.AList"
begin

section \<open>Python values and failures\<close>

text \<open>
  The exceptions the modelled code can raise. A failed \<^verbatim>\<open>assert\<close> raises
  \<^verbatim>\<open>AssertionError\<close> with the message of the assertion, a missing dictionary key raises
  \<^verbatim>\<open>KeyError\<close> (it carries the key, as text), a list subscript out of range raises
  \<^verbatim>\<open>IndexError\<close>, date arithmetic that leaves the range of the library raises
  \<^verbatim>\<open>OverflowError\<close>, a prompt at the end of its input raises \<^verbatim>\<open>EOFError\<close>.
  Every function that can raise returns \<open>error + 'a\<close>, with
  \<open>Inl\<close> for the exception.
\<close>

datatype error =
    ValueError string
  | AssertionError string
  | KeyError string
  | IndexError
  | TypeError
  | OverflowError
  | EOFError

text \<open>
  A list subscript \<^verbatim>\<open>xs[i]\<close>: a negative index counts from the end, and an index
  outside the list raises.
\<close>

definition py_index :: "'a list \<Rightarrow> int \<Rightarrow> error + 'a" where
  "py_index xs i =
     (let n = int (length xs); j = (if i < 0 then i + n else i)
      in if 0 \<le> j \<and> j < n then Inr (xs ! nat j) else Inl IndexError)"

section \<open>The Fibonacci engine (fib.py)\<close>

text \<open>
  The state of a \<^verbatim>\<open>FibNumbers\<close> object is its private list \<^verbatim>\<open>__fibNumbers\<close>.
  The constructor sets it to \<^verbatim>\<open>[1, 1]\<close>.
\<close>

definition FibNumbers_init :: "int list" where
  "FibNumbers_init = [1, 1]"

text \<open>
  The loop \<^verbatim>\<open>for i in range(len(self.__fibNumbers), n)\<close>, over the values of the range:
  each round appends \<^verbatim>\<open>fibs[i - 1] + fibs[i - 2]\<close>. A subscript that raises leaves the
  list as far as it was extended.
\<close>

fun fib_for :: "int list \<Rightarrow> int list \<Rightarrow> error option \<times> int list" where
  "fib_for [] fibs = (None, fibs)"
| "fib_for (i # is) fibs =
     (case py_index fibs (i - 1) of
        Inl e \<Rightarrow> (Some e, fibs)
      | Inr a \<Rightarrow>
          (case py_index fibs (i - 2) of
             Inl e \<Rightarrow> (Some e, fibs)
           | Inr b \<Rightarrow> fib_for is (fibs @ [a + b])))"

text \<open>
  \<^verbatim>\<open>getNthFibNumber(n)\<close> returns the result (or the exception) and the list after the call.
\<close>

definition getNthFibNumber :: "int list \<Rightarrow> int \<Rightarrow> (error + int) \<times> int list" where
  "getNthFibNumber fibs n =
     (if n = 0 then (Inl (ValueError ''For our cases, there is no zeroth fib number''), fibs)
      else if n < 0 then (Inl (ValueError ''Can't have a negative fib number.''), fibs)
      else if n \<le> int (length fibs) then (py_index fibs (n - 1), fibs)
      else
        (case fib_for [int (length fibs)..n - 1] fibs of
           (Some e, fibs') \<Rightarrow> (Inl e, fibs')
         | (None, fibs') \<Rightarrow> (py_index fibs' (n - 1), fibs')))"

text \<open>
  The lists a \<^verbatim>\<open>FibNumbers\<close> object can hold: the list is private, so it is the initial
  one or the list left by a call of \<^verbatim>\<open>getNthFibNumber\<close> on such a list.
\<close>

inductive fib_state :: "int list \<Rightarrow> bool" where
  fib_state_init: "fib_state FibNumbers_init"
| fib_state_call: "fib_state fibs \<Longrightarrow> fib_state (snd (getNthFibNumber fibs n))"

text \<open>
  The sequence as the specification words it: \<open>F(1) = 1\<close>, \<open>F(2) = 1\<close>,
  \<open>F(n) = F(n-1) + F(n-2)\<close> for \<open>n > 2\<close>; there is no \<open>F(0)\<close>, and the value
  given at \<open>0\<close> only makes the recursion uniform.
\<close>

fun spec_F :: "nat \<Rightarrow> int" where
  "spec_F 0 = 0"
| "spec_F (Suc 0) = 1"
| "spec_F (Suc (Suc n)) = spec_F (Suc n) + spec_F n"

text \<open>The invariant of the memo: entry \<open>k\<close> holds \<open>F(k + 1)\<close>, and there are at least two entries.\<close>

definition fib_memo :: "int list \<Rightarrow> bool" where
  "fib_memo fibs \<longleftrightarrow> 2 \<le> length fibs \<and> fibs = map (\<lambda>k. spec_F (Suc k)) [0..<length fibs]"

section \<open>Identifiers (uid.py)\<close>

text \<open>
  A \<^verbatim>\<open>UID\<close> wraps a string; equality and hashing are those of the string.
  \<^verbatim>\<open>UID(None)\<close>, which draws a random identifier, is not modelled: every identifier
  here is built from a string, as \<^verbatim>\<open>UID.fromString\<close> does.
\<close>

datatype UID = UID (toString: string)


section \<open>Records (db.py)\<close>

text \<open>
  The two classes derived from \<^verbatim>\<open>Record\<close>, with the fields their constructors set.
  A selector shared by both constructors (\<open>uid\<close>, \<open>name\<close>, \<open>active\<close>) is the attribute
  read on a record of either class.

  A Python \<^verbatim>\<open>float\<close> is modelled by the rational number it denotes, and arithmetic on
  it is exact: the rounding of IEEE 754 doubles, infinities and NaN are outside the
  model. A \<^verbatim>\<open>datetime\<close> is a value of the type parameter \<open>'dt\<close>; the operations of the
  standard library on it (\<^verbatim>\<open>datetime.now\<close>, adding a \<^verbatim>\<open>timedelta\<close>,
  \<^verbatim>\<open>isoformat\<close>, \<^verbatim>\<open>fromisoformat\<close>) are parameters of the functions that call them.
\<close>

datatype 'dt Record =
    Subject (uid: UID) (name: string) (active: bool) (weight: rat) (bias: int)
  | Topic (uid: UID) (name: string) (subjectUID: UID) (active: bool)
      (lastStudy: 'dt) (fibNumber: int)

text \<open>The class of a record, as \<^verbatim>\<open>type(record)\<close> returns it.\<close>

datatype RecordType = SubjectType | TopicType

fun type_of :: "'dt Record \<Rightarrow> RecordType" where
  "type_of (Subject u n a w b) = SubjectType"
| "type_of (Topic u n s a l f) = TopicType"


definition NEW_TOPIC_DEFAULT_FIB :: int where
  "NEW_TOPIC_DEFAULT_FIB = 2"

text \<open>
  \<^verbatim>\<open>Topic.__init__\<close>. The default of \<^verbatim>\<open>dTime\<close> is written
  \<^verbatim>\<open>dTime: datetime = datetime.now(tz=timezone.utc)\<close> in the parameter list; Python
  evaluates a default once, when the \<^verbatim>\<open>def\<close> statement runs (here: when the module
  \<^verbatim>\<open>db\<close> is imported), and every later call without the argument receives that one
  value. The first argument \<open>dTime_default\<close> is this value. The constructor does not
  read the clock.
\<close>

definition Topic_init ::
  "'dt \<Rightarrow> UID \<Rightarrow> string \<Rightarrow> UID \<Rightarrow> bool \<Rightarrow> int option \<Rightarrow> 'dt option \<Rightarrow> 'dt Record" where
  "Topic_init dTime_default uid' name' subjectUID' active' fibNumber' dTime =
     Topic uid' name' subjectUID' active'
       (case dTime of None \<Rightarrow> dTime_default | Some d \<Rightarrow> d)
       (case fibNumber' of None \<Rightarrow> NEW_TOPIC_DEFAULT_FIB | Some f \<Rightarrow> f)"

subsection \<open>JSON encoding\<close>















section \<open>The database (db.py)\<close>

text \<open>
  A \<^verbatim>\<open>Database\<close> object is its only attribute \<^verbatim>\<open>recordDict\<close>, a Python dictionary:
  the list of its items in insertion order, with no key twice. \<^verbatim>\<open>d[k] = v\<close> replaces
  the value of a key in place and puts a new key at the end (\<^const>\<open>AList.update\<close>),
  \<^verbatim>\<open>del d[k]\<close> removes the item (\<^const>\<open>AList.delete\<close>), \<^verbatim>\<open>d.values()\<close> is
  \<open>map snd d\<close>.
\<close>

type_synonym 'dt Database = "(UID \<times> 'dt Record) list"

definition contains :: "('k \<times> 'v) list \<Rightarrow> 'k \<Rightarrow> bool" where
  "contains d k \<longleftrightarrow> k \<in> set (map fst d)"

text \<open>\<^verbatim>\<open>Database(records)\<close>: a later record replaces an earlier one of the same uid.\<close>

definition Database_init :: "'dt Record list \<Rightarrow> 'dt Database" where
  "Database_init records = foldl (\<lambda>d record. AList.update (uid record) record d) [] records"

text \<open>
  The four methods return their result, or the \<^verbatim>\<open>AssertionError\<close> of the failed
  assertion, and the dictionary after the call.
\<close>

definition Database_insert :: "'dt Database \<Rightarrow> 'dt Record \<Rightarrow> (error + unit) \<times> 'dt Database" where
  "Database_insert db record =
     (if contains db (uid record)
      then (Inl (AssertionError ''Record already exists in database''), db)
      else (Inr (), AList.update (uid record) record db))"

definition Database_delete :: "'dt Database \<Rightarrow> UID \<Rightarrow> (error + unit) \<times> 'dt Database" where
  "Database_delete db uid' =
     (if \<not> contains db uid'
      then (Inl (AssertionError ''Record does not exist in database''), db)
      else (Inr (), AList.delete uid' db))"

definition Database_get :: "'dt Database \<Rightarrow> UID \<Rightarrow> (error + 'dt Record) \<times> 'dt Database" where
  "Database_get db uid' =
     (if \<not> contains db uid'
      then (Inl (AssertionError ''Record does not exist in database''), db)
      else (case map_of db uid' of
              None \<Rightarrow> (Inl (KeyError (toString uid')), db)
            | Some record \<Rightarrow> (Inr record, db)))"

definition Database_update :: "'dt Database \<Rightarrow> 'dt Record \<Rightarrow> (error + unit) \<times> 'dt Database" where
  "Database_update db record =
     (if \<not> contains db (uid record)
      then (Inl (AssertionError ''Record does not exist in database''), db)
      else (Inr (), AList.update (uid record) record db))"

text \<open>
  \<^verbatim>\<open>query(queryTypes, query)\<close> returns the new database, and the dictionary of the
  queried one after the call. The callable is a function to \<open>bool\<close>.
\<close>

definition Database_query ::
  "'dt Database \<Rightarrow> RecordType list \<Rightarrow> ('dt Record \<Rightarrow> bool) \<Rightarrow> 'dt Database \<times> 'dt Database" where
  "Database_query db queryTypes q =
     (Database_init (filter (\<lambda>record. type_of record \<in> set queryTypes \<and> q record) (map snd db)),
      db)"

text \<open>
  The databases the constructor and the methods build: every record is stored under its
  own uid, and no key occurs twice.
\<close>

definition db_ok :: "'dt Database \<Rightarrow> bool" where
  "db_ok db \<longleftrightarrow> distinct (map fst db) \<and> list_all (\<lambda>(k, record). uid record = k) db"

section \<open>The predictor (predict.py)\<close>

text \<open>
  \<^verbatim>\<open>round(x)\<close> on a float, without a number of digits: the nearest integer, and the
  even one of the two when \<open>x\<close> lies halfway between them.
\<close>

definition py_round :: "rat \<Rightarrow> int" where
  "py_round x =
     (let f = \<lfloor>x\<rfloor>; d = x - of_int f
      in if d < 1 / 2 then f
         else if 1 / 2 < d then f + 1
         else if even f then f else f + 1)"

text \<open>\<^verbatim>\<open>round(rawFibPred * subjectWeight + subjectBias)\<close>, the offset in days.\<close>

definition actualPred :: "int \<Rightarrow> rat \<Rightarrow> int \<Rightarrow> int" where
  "actualPred rawFibPred subjectWeight subjectBias =
     py_round (of_int rawFibPred * subjectWeight + of_int subjectBias)"

record 'dt Predictor =
  dBase :: "'dt Database"
  timeLookup :: "(UID \<times> 'dt) list"

definition Predictor_init :: "'dt Database \<Rightarrow> 'dt Predictor" where
  "Predictor_init dBase' = \<lparr>dBase = dBase', timeLookup = []\<rparr>"

text \<open>
  The first loop of \<^verbatim>\<open>predict\<close>: the dictionary \<^verbatim>\<open>subjectWAndTup\<close> from the uid of
  every Subject to its weight and bias.
\<close>

definition subject_lookup :: "'dt Database \<Rightarrow> (UID \<times> rat \<times> int) list" where
  "subject_lookup db =
     foldl (\<lambda>subjectWAndTup subject.
              if is_Subject subject
              then AList.update (uid subject) (weight subject, bias subject) subjectWAndTup
              else subjectWAndTup)
       [] (map snd db)"

text \<open>
  The second loop, over the values of the dictionary. Its state is \<^verbatim>\<open>resultDict\<close>,
  the list of the shared Fibonacci engine \<^verbatim>\<open>fibNumbers\<close>, and the number of calls of
  \<^verbatim>\<open>datetime.now\<close> made so far. \<open>now k\<close> is what call number \<open>k\<close> of
  \<^verbatim>\<open>datetime.now(tz=timezone.utc)\<close> returns in this run, and \<open>plus_days t d\<close> is
  \<^verbatim>\<open>t + timedelta(days=d)\<close>, which the library refuses with an exception outside its
  range. The first exception ends the loop.
\<close>

fun predict_for ::
  "(nat \<Rightarrow> 'dt) \<Rightarrow> ('dt \<Rightarrow> int \<Rightarrow> error + 'dt) \<Rightarrow> (UID \<times> rat \<times> int) list \<Rightarrow> 'dt Record list \<Rightarrow>
   (UID \<times> 'dt) list \<Rightarrow> int list \<Rightarrow> nat \<Rightarrow> (error + (UID \<times> 'dt) list) \<times> int list" where
  "predict_for now plus_days subjectWAndTup [] resultDict fibs calls = (Inr resultDict, fibs)"
| "predict_for now plus_days subjectWAndTup (item # items) resultDict fibs calls =
     (if type_of item = TopicType then
        (case getNthFibNumber fibs (fibNumber item) of
           (Inl e, fibs') \<Rightarrow> (Inl e, fibs')
         | (Inr rawFibPred, fibs') \<Rightarrow>
             (case map_of subjectWAndTup (subjectUID item) of
                None \<Rightarrow> (Inl (KeyError (toString (subjectUID item))), fibs')
              | Some (subjectWeight, subjectBias) \<Rightarrow>
                  (case plus_days (now calls) (actualPred rawFibPred subjectWeight subjectBias) of
                     Inl e \<Rightarrow> (Inl e, fibs')
                   | Inr predicted \<Rightarrow>
                       predict_for now plus_days subjectWAndTup items
                         (AList.update (uid item) predicted resultDict) fibs' (Suc calls))))
      else predict_for now plus_days subjectWAndTup items resultDict fibs calls)"

text \<open>
  \<^verbatim>\<open>predict\<close> returns the mapping (or the exception), the predictor after the call
  (\<^verbatim>\<open>timeLookup\<close> is assigned only when both loops have finished) and the list of the
  Fibonacci engine after the call.
\<close>

definition predict ::
  "(nat \<Rightarrow> 'dt) \<Rightarrow> ('dt \<Rightarrow> int \<Rightarrow> error + 'dt) \<Rightarrow> int list \<Rightarrow> 'dt Predictor \<Rightarrow>
   (error + (UID \<times> 'dt) list) \<times> 'dt Predictor \<times> int list" where
  "predict now plus_days fibs self =
     (case predict_for now plus_days (subject_lookup (dBase self)) (map snd (dBase self)) [] fibs 0 of
        (Inl e, fibs') \<Rightarrow> (Inl e, self, fibs')
      | (Inr resultDict, fibs') \<Rightarrow> (Inr resultDict, self\<lparr>timeLookup := resultDict\<rparr>, fibs'))"

section \<open>Completing a task (cli.py, validators.py)\<close>

definition getStrListValidator :: "string list \<Rightarrow> string \<Rightarrow> bool" where
  "getStrListValidator validInputs inText \<longleftrightarrow> inText \<in> set validInputs"

definition getSubjectNames :: "'dt Database \<Rightarrow> string list" where
  "getSubjectNames db =
     map name (filter (\<lambda>record. type_of record = SubjectType) (map snd db))"

definition getSubjectNameValidator :: "'dt Database \<Rightarrow> string \<Rightarrow> bool" where
  "getSubjectNameValidator db = getStrListValidator (getSubjectNames db)"

text \<open>
  \<^verbatim>\<open>prompt(..., validator=v)\<close> returns the first line the user enters that the validator
  accepts. The lines the user will enter are a list; the prompt returns the accepted line
  and the lines left, and raises \<^verbatim>\<open>EOFError\<close> when the input ends first.
\<close>

fun prompt :: "(string \<Rightarrow> bool) \<Rightarrow> string list \<Rightarrow> (error + string) \<times> string list" where
  "prompt validator [] = (Inl EOFError, [])"
| "prompt validator (line # lines) =
     (if validator line then (Inr line, lines) else prompt validator lines)"

definition subjectNamePrompt :: "'dt Database \<Rightarrow> string list \<Rightarrow> (error + string) \<times> string list" where
  "subjectNamePrompt db lines = prompt (getSubjectNameValidator db) lines"

text \<open>The assignment \<^verbatim>\<open>record.fibNumber = v\<close> on a Topic.\<close>

fun set_fibNumber :: "int \<Rightarrow> 'dt Record \<Rightarrow> 'dt Record" where
  "set_fibNumber v (Topic u n s a l f) = Topic u n s a l v"
| "set_fibNumber v (Subject u n a w b) = Subject u n a w b"

text \<open>
  The end of \<^verbatim>\<open>completeTask\<close>, from \<^verbatim>\<open>db.get(UID(topicUID))\<close> on: what the
  specification calls \<open>completeTopic(uid)\<close>. \<^verbatim>\<open>topic.fibNumber += 1\<close> changes the object
  that \<^verbatim>\<open>get\<close> returned, which is the object stored under the key looked up, so the
  dictionary holds the changed record under that key before \<^verbatim>\<open>update\<close> is called.
\<close>

definition completeTopic :: "'dt Database \<Rightarrow> string \<Rightarrow> (error + unit) \<times> 'dt Database" where
  "completeTopic db topicUID =
     (case Database_get db (UID topicUID) of
        (Inl e, db1) \<Rightarrow> (Inl e, db1)
      | (Inr topic, db1) \<Rightarrow>
          if \<not> type_of topic = TopicType then (Inl (AssertionError []), db1)
          else
            (let topic' = set_fibNumber (fibNumber topic + 1) topic;
                 db2 = AList.update (UID topicUID) topic' db1
             in Database_update db2 topic'))"

text \<open>
  \<^verbatim>\<open>completeTask\<close> on the global database \<^verbatim>\<open>db\<close>, with the lines the user enters
  at the two prompts. The uid strings of all the records of the chosen name are
  concatenated, as \<^verbatim>\<open>subjUID += record.uid.uid\<close> does in its loop.
\<close>

definition completeTask ::
  "'dt Database \<Rightarrow> string list \<Rightarrow> (error + unit) \<times> 'dt Database \<times> string list" where
  "completeTask db lines =
     (case subjectNamePrompt db lines of
        (Inl e, lines1) \<Rightarrow> (Inl e, db, lines1)
      | (Inr subjectName, lines1) \<Rightarrow>
          (let subjUID = concat (map (\<lambda>record. toString (uid record))
                 (filter (\<lambda>record. type_of record = SubjectType \<and> name record = subjectName)
                    (map snd db)));
               allTopics = filter (\<lambda>record. type_of record = TopicType \<and>
                                       toString (subjectUID record) = subjUID) (map snd db)
           in (case prompt (getStrListValidator (map name allTopics)) lines1 of
                 (Inl e, lines2) \<Rightarrow> (Inl e, db, lines2)
               | (Inr topicName, lines2) \<Rightarrow>
                   (let topicUID = concat (map (\<lambda>topic. toString (uid topic))
                          (filter (\<lambda>topic. name topic = topicName) allTopics))
                    in (case completeTopic db topicUID of
                          (r, db') \<Rightarrow> (r, db', lines2))))))"

section \<open>Records that differ in their \<^verbatim>\<open>active\<close> flags only\<close>

text \<open>The assignment \<^verbatim>\<open>record.active = v\<close>.\<close>

fun set_active :: "bool \<Rightarrow> 'dt Record \<Rightarrow> 'dt Record" where
  "set_active v (Subject u n a w b) = Subject u n v w b"
| "set_active v (Topic u n s a l f) = Topic u n s v l f"

definition same_but_active :: "'dt Record \<Rightarrow> 'dt Record \<Rightarrow> bool" where
  "same_but_active record record' \<longleftrightarrow> record' = set_active (active record') record"

text \<open>Two databases with the same keys in the same order, and such records under them.\<close>

definition db_same_but_active :: "'dt Database \<Rightarrow> 'dt Database \<Rightarrow> bool" where
  "db_same_but_active db db' \<longleftrightarrow>
     list_all2 (\<lambda>(k, record) (k', record'). k = k' \<and> same_but_active record record') db db'"


section \<open>An instance of the clock and of date arithmetic\<close>

text \<open>
  A datetime as the number of microseconds since some epoch, with no bound on its range:
  every reading of the clock returns \<open>t\<close>, and adding days never fails.
\<close>

definition clock_at :: "int \<Rightarrow> nat \<Rightarrow> int" where
  "clock_at t k = t"

definition plus_days_us :: "int \<Rightarrow> int \<Rightarrow> error + int" where
  "plus_days_us t days = Inr (t + days * 86400000000)"

section \<open>An example database\<close>

text \<open>
  One Subject and two Topics of it, with datetimes given as their ISO texts; the
  theorems below are run on it.
\<close>

definition example_subject :: "string Record" where
  "example_subject = Subject (UID ''s1'') ''maths'' True (5 / 2) 0"

definition example_topic :: "string Record" where
  "example_topic =
     Topic (UID ''t1'') ''algebra'' (UID ''s1'') True ''2023-05-01T12:30:00.000250+00:00'' 2"

definition example_topic2 :: "string Record" where
  "example_topic2 =
     Topic (UID ''t2'') ''sets'' (UID ''s1'') False ''2023-06-11T08:00:00+00:00'' 4"

definition example_db :: "string Database" where
  "example_db = Database_init [example_subject, example_topic, example_topic2]"

text \<open>
  The scenario of one Subject of weight 2.5 and bias 0 and one Topic of it with
  \<^verbatim>\<open>fibNumber\<close> 2, and the same with weight -1.
\<close>

definition scenario_db :: "int Database" where
  "scenario_db =
     Database_init
       [Subject (UID ''s1'') ''maths'' True (5 / 2) 0,
        Topic (UID ''t1'') ''algebra'' (UID ''s1'') True 1700000000000000 2]"

definition negative_db :: "int Database" where
  "negative_db =
     Database_init
       [Subject (UID ''s1'') ''maths'' True (- 1) 0,
        Topic (UID ''t1'') ''algebra'' (UID ''s1'') True 1700000000000000 2]"



text \<open>The scenario with every \<^verbatim>\<open>active\<close> flag false.\<close>

definition inactive_db :: "int Database" where
  "inactive_db =
     Database_init
       [Subject (UID ''s1'') ''maths'' False (5 / 2) 0,
        Topic (UID ''t1'') ''algebra'' (UID ''s1'') False 1700000000000000 2]"

section \<open>Properties of the Fibonacci engine\<close>

subsection \<open>The memo holds the sequence\<close>

lemma fib_memo_nth: "fib_memo fibs \<Longrightarrow> k < length fibs \<Longrightarrow> fibs ! k = spec_F (Suc k)"
  unfolding fib_memo_def by (metis (no_types, lifting) add_0 length_map nth_map nth_upt)

lemma fib_memo_index:
  assumes "fib_memo fibs" "1 \<le> i" "i \<le> int (length fibs)"
  shows "py_index fibs (i - 1) = Inr (spec_F (nat i))"
proof -
  have "nat (i - 1) < length fibs" using assms by linarith
  then have "fibs ! nat (i - 1) = spec_F (Suc (nat (i - 1)))"
    using assms(1) by (rule fib_memo_nth[rotated])
  moreover have "Suc (nat (i - 1)) = nat i" using assms by linarith
  ultimately show ?thesis using assms by (simp add: py_index_def Let_def)
qed

lemma fib_memo_map: "2 \<le> n \<Longrightarrow> fib_memo (map (\<lambda>k. spec_F (Suc k)) [0..<n])"
  by (simp add: fib_memo_def)

lemma fib_memo_eq: "fib_memo fibs \<Longrightarrow> fibs = map (\<lambda>k. spec_F (Suc k)) [0..<length fibs]"
  by (simp add: fib_memo_def)

lemma fib_for_memo:
  "fib_memo fibs \<Longrightarrow>
   fib_for [int (length fibs)..int (length fibs) + int k - 1] fibs
     = (None, map (\<lambda>j. spec_F (Suc j)) [0..<length fibs + k])"
proof (induction k arbitrary: fibs)
  case 0
  then show ?case using fib_memo_eq[OF 0] by simp
next
  case (Suc k)
  let ?L = "length fibs"
  have L2: "2 \<le> ?L" using Suc.prems by (simp add: fib_memo_def)
  have rng: "[int ?L..int ?L + int (Suc k) - 1] = int ?L # [int ?L + 1..int ?L + int k]"
    by (subst upto_rec1) simp_all
  have a: "py_index fibs (int ?L - 1) = Inr (spec_F ?L)"
    using fib_memo_index[OF Suc.prems, of "int ?L"] L2 by simp
  have b: "py_index fibs (int ?L - 2) = Inr (spec_F (?L - 1))"
  proof -
    have "py_index fibs ((int ?L - 1) - 1) = Inr (spec_F (nat (int ?L - 1)))"
      using L2 by (intro fib_memo_index[OF Suc.prems]) simp_all
    moreover have "nat (int ?L - 1) = ?L - 1" by simp
    ultimately show ?thesis by simp
  qed
  obtain m where m: "?L = Suc (Suc m)" using L2 by (metis Suc_le_D numeral_2_eq_2 Suc_le_mono)
  have s: "spec_F ?L + spec_F (?L - 1) = spec_F (Suc ?L)" using m by simp
  let ?fibs' = "fibs @ [spec_F (Suc ?L)]"
  have eq': "?fibs' = map (\<lambda>j. spec_F (Suc j)) [0..<Suc ?L]"
    using fib_memo_eq[OF Suc.prems] by simp
  have memo': "fib_memo ?fibs'"
    unfolding eq' using L2 by (intro fib_memo_map) simp
  have len': "length ?fibs' = Suc ?L" by simp
  have "fib_for [int ?L..int ?L + int (Suc k) - 1] fibs
        = fib_for [int ?L + 1..int ?L + int k] ?fibs'"
    unfolding rng using s by (simp add: a b del: spec_F.simps)
  also have "[int ?L + 1..int ?L + int k] = [int (length ?fibs')..int (length ?fibs') + int k - 1]"
    by (simp add: add.commute)
  also have "fib_for \<dots> ?fibs' = (None, map (\<lambda>j. spec_F (Suc j)) [0..<length ?fibs' + k])"
    by (rule Suc.IH[OF memo'])
  finally show ?case by simp
qed

lemma getNthFibNumber_memo:
  assumes "fib_memo fibs" "1 \<le> n"
  shows "getNthFibNumber fibs n =
           (Inr (spec_F (nat n)), map (\<lambda>j. spec_F (Suc j)) [0..<max (length fibs) (nat n)])"
proof (cases "n \<le> int (length fibs)")
  case True
  then have "max (length fibs) (nat n) = length fibs" by linarith
  then show ?thesis
    using assms True fib_memo_index[OF assms(1) assms(2) True] fib_memo_eq[OF assms(1)]
    by (simp add: getNthFibNumber_def)
next
  case False
  define k where "k = nat n - length fibs"
  have n: "n - 1 = int (length fibs) + int k - 1" using False by (simp add: k_def)
  have mx: "max (length fibs) (nat n) = length fibs + k" using False by (simp add: k_def)
  let ?fibs' = "map (\<lambda>j. spec_F (Suc j)) [0..<length fibs + k]"
  have loop: "fib_for [int (length fibs)..n - 1] fibs = (None, ?fibs')"
    unfolding n by (rule fib_for_memo[OF assms(1)])
  have "fib_memo ?fibs'" using assms(1) by (intro fib_memo_map) (simp add: fib_memo_def)
  moreover have "n \<le> int (length ?fibs')" using False by (simp add: k_def)
  ultimately have "py_index ?fibs' (n - 1) = Inr (spec_F (nat n))"
    using assms(2) by (intro fib_memo_index)
  then show ?thesis using assms False loop mx by (simp add: getNthFibNumber_def)
qed

lemma getNthFibNumber_nonpos:
  "n \<le> 0 \<Longrightarrow> \<exists>m. getNthFibNumber fibs n = (Inl (ValueError m), fibs)"
  by (simp add: getNthFibNumber_def)

lemma fib_memo_init: "fib_memo FibNumbers_init"
  by (simp add: fib_memo_def FibNumbers_init_def upt_rec)

lemma fib_state_memo: "fib_state fibs \<Longrightarrow> fib_memo fibs"
proof (induction rule: fib_state.induct)
  case fib_state_init
  show ?case by (rule fib_memo_init)
next
  case (fib_state_call fibs n)
  show ?case
  proof (cases "1 \<le> n")
    case True
    have "2 \<le> length fibs" using fib_state_call.IH by (simp add: fib_memo_def)
    then have "2 \<le> max (length fibs) (nat n)" by linarith
    then show ?thesis
      using getNthFibNumber_memo[OF fib_state_call.IH True] by (simp add: fib_memo_map)
  next
    case False
    then show ?thesis using fib_state_call.IH getNthFibNumber_nonpos[of n fibs] by auto
  qed
qed

text \<open>
  C4. On every list the engine can hold, \<^verbatim>\<open>getNthFibNumber(1)\<close> and
  \<^verbatim>\<open>getNthFibNumber(2)\<close> return 1, and for \<open>n > 2\<close> the value returned for \<open>n\<close> is the
  sum of the values returned for \<open>n - 1\<close> and \<open>n - 2\<close>, whatever calls were made before each
  of the three (the three lists may differ).
\<close>

theorem getNthFibNumber_recurrence:
  assumes "fib_state fibs" and "fib_state fibs1" and "fib_state fibs2"
  shows "fst (getNthFibNumber fibs 1) = Inr 1 \<and>
         fst (getNthFibNumber fibs 2) = Inr 1 \<and>
         (2 < n \<longrightarrow>
            (\<exists>a b. fst (getNthFibNumber fibs1 (n - 1)) = Inr a \<and>
                   fst (getNthFibNumber fibs2 (n - 2)) = Inr b \<and>
                   fst (getNthFibNumber fibs n) = Inr (a + b)))"
proof -
  note m = fib_state_memo[OF assms(1)] fib_state_memo[OF assms(2)] fib_state_memo[OF assms(3)]
  have one: "fst (getNthFibNumber fibs 1) = Inr 1"
    using getNthFibNumber_memo[OF m(1), of 1] by simp
  have two: "fst (getNthFibNumber fibs 2) = Inr 1"
    using getNthFibNumber_memo[OF m(1), of 2] by (simp add: numeral_2_eq_2)
  have rec: "\<exists>a b. fst (getNthFibNumber fibs1 (n - 1)) = Inr a \<and>
                   fst (getNthFibNumber fibs2 (n - 2)) = Inr b \<and>
                   fst (getNthFibNumber fibs n) = Inr (a + b)" if n: "2 < n"
  proof -
    define k where "k = nat n - 2"
    have k: "nat n = Suc (Suc k)" using n by (simp add: k_def)
    have k1: "nat (n - 1) = Suc k" and k2: "nat (n - 2) = k" using k by linarith+
    have "fst (getNthFibNumber fibs1 (n - 1)) = Inr (spec_F (Suc k))"
      using getNthFibNumber_memo[OF m(2), of "n - 1"] n k1 by simp
    moreover have "fst (getNthFibNumber fibs2 (n - 2)) = Inr (spec_F k)"
      using getNthFibNumber_memo[OF m(3), of "n - 2"] n k2 by simp
    moreover have "fst (getNthFibNumber fibs n) = Inr (spec_F (Suc k) + spec_F k)"
      using getNthFibNumber_memo[OF m(1), of n] n k by simp
    ultimately show ?thesis by blast
  qed
  from one two rec show ?thesis by blast
qed

theorem getNthFibNumber_recurrence_witness:
  "fib_state FibNumbers_init \<and>
   fib_state (snd (getNthFibNumber FibNumbers_init 7)) \<and>
   fib_state (snd (getNthFibNumber (snd (getNthFibNumber FibNumbers_init 7)) 3)) \<and>
   fst (getNthFibNumber FibNumbers_init 1) = Inr 1 \<and>
   fst (getNthFibNumber FibNumbers_init 2) = Inr 1 \<and>
   (2::int) < 6 \<and>
   (\<exists>a b. fst (getNthFibNumber (snd (getNthFibNumber FibNumbers_init 7)) (6 - 1)) = Inr a \<and>
          fst (getNthFibNumber (snd (getNthFibNumber (snd (getNthFibNumber FibNumbers_init 7)) 3))
                 (6 - 2)) = Inr b \<and>
          fst (getNthFibNumber FibNumbers_init 6) = Inr (a + b))"
proof -
  have s0: "fib_state FibNumbers_init" by (rule fib_state_init)
  have s1: "fib_state (snd (getNthFibNumber FibNumbers_init 7))"
    by (rule fib_state_call[OF s0])
  have s2: "fib_state (snd (getNthFibNumber (snd (getNthFibNumber FibNumbers_init 7)) 3))"
    by (rule fib_state_call[OF s1])
  show ?thesis
    using getNthFibNumber_recurrence[OF s0 s1 s2, of 6] s0 s1 s2 by simp
qed

text \<open>
  C9. \<^verbatim>\<open>getNthFibNumber(n)\<close> raises \<^verbatim>\<open>ValueError\<close> (the specification's InvalidArgument)
  for \<open>n = 0\<close> and for every \<open>n < 0\<close>, and returns a value for every \<open>n \<ge> 1\<close>, on every
  list the engine can hold.
\<close>

theorem getNthFibNumber_domain:
  assumes "fib_state fibs"
  shows "(n = 0 \<longrightarrow> fst (getNthFibNumber fibs n)
                      = Inl (ValueError ''For our cases, there is no zeroth fib number'')) \<and>
         (n < 0 \<longrightarrow> fst (getNthFibNumber fibs n)
                      = Inl (ValueError ''Can't have a negative fib number.'')) \<and>
         (1 \<le> n \<longrightarrow> (\<exists>v. fst (getNthFibNumber fibs n) = Inr v))"
proof -
  have "\<exists>v. fst (getNthFibNumber fibs n) = Inr v" if "1 \<le> n"
    using getNthFibNumber_memo[OF fib_state_memo[OF assms] that] by simp
  then show ?thesis by (simp add: getNthFibNumber_def)
qed

theorem getNthFibNumber_domain_witness:
  "fib_state FibNumbers_init \<and>
   fst (getNthFibNumber FibNumbers_init 0)
     = Inl (ValueError ''For our cases, there is no zeroth fib number'') \<and>
   (-1::int) < 0 \<and>
   fst (getNthFibNumber FibNumbers_init (-1))
     = Inl (ValueError ''Can't have a negative fib number.'') \<and>
   (1::int) \<le> 9 \<and>
   (\<exists>v. fst (getNthFibNumber FibNumbers_init 9) = Inr v)"
  using getNthFibNumber_domain[OF fib_state_init, of 0]
        getNthFibNumber_domain[OF fib_state_init, of "-1"]
        getNthFibNumber_domain[OF fib_state_init, of 9]
        fib_state_init
  by simp

section \<open>Properties of the database\<close>

lemma contains_map_of: "contains d k \<longleftrightarrow> map_of d k \<noteq> None"
  by (simp add: contains_def map_of_eq_None_iff)

lemma update_fresh: "\<not> contains d k \<Longrightarrow> AList.update k v d = d @ [(k, v)]"
  by (induction d) (auto simp: contains_def)

lemma contains_update: "contains (AList.update k v d) k' \<longleftrightarrow> k' = k \<or> contains d k'"
  using dom_update[of k v d] by (auto simp: contains_def)

lemma db_ok_Nil: "db_ok []"
  by (simp add: db_ok_def)

lemma list_all_update:
  "list_all (\<lambda>(k, record). uid record = k) db \<Longrightarrow>
   list_all (\<lambda>(k, record). uid record = k) (AList.update (uid r) r db)"
  by (induction db) auto

lemma db_ok_update: "db_ok db \<Longrightarrow> db_ok (AList.update (uid record) record db)"
  unfolding db_ok_def by (simp add: distinct_update list_all_update)

lemma db_ok_delete: "db_ok db \<Longrightarrow> db_ok (AList.delete k db)"
  unfolding db_ok_def by (induction db) (auto simp: delete_keys)

lemma db_ok_foldl:
  "db_ok acc \<Longrightarrow> db_ok (foldl (\<lambda>d record. AList.update (uid record) record d) acc records)"
  by (induction records arbitrary: acc) (simp_all add: db_ok_update)

lemma db_ok_init: "db_ok (Database_init records)"
  unfolding Database_init_def by (rule db_ok_foldl[OF db_ok_Nil])

lemma foldl_update_fresh:
  "db_ok (acc @ xs) \<Longrightarrow>
   foldl (\<lambda>d record. AList.update (uid record) record d) acc (map snd xs) = acc @ xs"
proof (induction xs arbitrary: acc)
  case Nil
  then show ?case by simp
next
  case (Cons p xs)
  obtain k r where p: "p = (k, r)" by (cases p)
  have k: "uid r = k" and fresh: "\<not> contains acc k"
    using Cons.prems by (auto simp: db_ok_def p contains_def)
  have "AList.update (uid r) r acc = acc @ [(k, r)]"
    using update_fresh[OF fresh] k by simp
  moreover have "db_ok ((acc @ [(k, r)]) @ xs)" using Cons.prems by (simp add: p)
  ultimately show ?case using Cons.IH[of "acc @ [(k, r)]"] by (simp add: p)
qed

lemma Database_init_values: "db_ok db \<Longrightarrow> Database_init (map snd db) = db"
  unfolding Database_init_def using foldl_update_fresh[of "[]" db] by simp

lemma db_ok_filter: "db_ok db \<Longrightarrow> db_ok (filter P db)"
  unfolding db_ok_def by (induction db) auto

lemma map_snd_filter: "map snd (filter (\<lambda>(k, r). P r) xs) = filter P (map snd xs)"
  by (induction xs) auto

lemma Database_query_filter:
  assumes "db_ok db"
  shows "Database_query db queryTypes q =
           (filter (\<lambda>(k, record). type_of record \<in> set queryTypes \<and> q record) db, db)"
proof -
  let ?P = "\<lambda>record. type_of record \<in> set queryTypes \<and> q record"
  have "Database_init (filter ?P (map snd db)) = Database_init (map snd (filter (\<lambda>(k, r). ?P r) db))"
    by (simp only: map_snd_filter)
  also have "\<dots> = filter (\<lambda>(k, r). ?P r) db"
    by (rule Database_init_values[OF db_ok_filter[OF assms]])
  finally show ?thesis by (simp add: Database_query_def)
qed

lemma map_of_filter_distinct:
  "distinct (map fst xs) \<Longrightarrow>
   map_of (filter (\<lambda>(k, r). P r) xs) k = Some r \<longleftrightarrow> map_of xs k = Some r \<and> P r"
proof (induction xs)
  case Nil
  then show ?case by simp
next
  case (Cons p xs)
  obtain k' r' where p: "p = (k', r')" by (cases p)
  have notin: "map_of xs k' = None" using Cons.prems by (simp add: p map_of_eq_None_iff)
  have notin': "map_of (filter (\<lambda>(k, r). P r) xs) k' = None"
    using Cons.prems by (auto simp: p map_of_eq_None_iff)
  show ?case using Cons notin notin' by (auto simp: p)
qed

lemma example_db_eq:
  "example_db = [(UID ''s1'', example_subject), (UID ''t1'', example_topic),
                 (UID ''t2'', example_topic2)]"
  by (simp add: example_db_def Database_init_def example_subject_def example_topic_def
      example_topic2_def)

lemma example_db_ok: "db_ok example_db"
  unfolding example_db_def by (rule db_ok_init)

text \<open>The methods keep every record under its own uid.\<close>

lemma db_ok_methods:
  assumes "db_ok db"
  shows "db_ok (snd (Database_insert db record))"
    and "db_ok (snd (Database_update db record))"
    and "db_ok (snd (Database_delete db k))"
    and "db_ok (snd (Database_get db k))"
    and "db_ok (fst (Database_query db queryTypes q))"
  using assms
  by (simp_all add: Database_insert_def Database_update_def Database_delete_def Database_get_def
      Database_query_def db_ok_update db_ok_delete db_ok_init split: option.splits)

text \<open>
  C3. \<^verbatim>\<open>insert\<close> fails exactly when the uid of the record is a key already;
  \<^verbatim>\<open>get\<close>, \<^verbatim>\<open>update\<close> and \<^verbatim>\<open>delete\<close> fail exactly when the key is absent. Each
  failure is the \<^verbatim>\<open>AssertionError\<close> of the method's assertion (the specification's
  DuplicateKey and NotFound), and it leaves the dictionary as it was.
\<close>

theorem Database_failures:
  "(isl (fst (Database_insert db r1)) \<longleftrightarrow> contains db (uid r1)) \<and>
   (isl (fst (Database_get db k2)) \<longleftrightarrow> \<not> contains db k2) \<and>
   (isl (fst (Database_update db r3)) \<longleftrightarrow> \<not> contains db (uid r3)) \<and>
   (isl (fst (Database_delete db k4)) \<longleftrightarrow> \<not> contains db k4) \<and>
   (isl (fst (Database_insert db r1)) \<longrightarrow>
      Database_insert db r1 = (Inl (AssertionError ''Record already exists in database''), db)) \<and>
   (isl (fst (Database_get db k2)) \<longrightarrow>
      Database_get db k2 = (Inl (AssertionError ''Record does not exist in database''), db)) \<and>
   (isl (fst (Database_update db r3)) \<longrightarrow>
      Database_update db r3 = (Inl (AssertionError ''Record does not exist in database''), db)) \<and>
   (isl (fst (Database_delete db k4)) \<longrightarrow>
      Database_delete db k4 = (Inl (AssertionError ''Record does not exist in database''), db))"
proof -
  have g: "contains db k2 \<Longrightarrow> \<exists>r. map_of db k2 = Some r"
    by (simp add: contains_map_of)
  have get: "isl (fst (Database_get db k2)) \<longleftrightarrow> \<not> contains db k2"
    using g by (auto simp: Database_get_def)
  have get': "isl (fst (Database_get db k2)) \<longrightarrow>
      Database_get db k2 = (Inl (AssertionError ''Record does not exist in database''), db)"
    using g by (auto simp: Database_get_def)
  show ?thesis
    using get get' by (simp add: Database_insert_def Database_update_def Database_delete_def)
qed

theorem Database_failures_witness:
  "contains example_db (uid example_subject) \<and>
   \<not> contains example_db (UID ''t9'') \<and>
   Database_insert example_db example_subject
     = (Inl (AssertionError ''Record already exists in database''), example_db) \<and>
   Database_get example_db (UID ''t9'')
     = (Inl (AssertionError ''Record does not exist in database''), example_db) \<and>
   Database_update example_db (Topic (UID ''t9'') ''logic'' (UID ''s1'') True [] 2)
     = (Inl (AssertionError ''Record does not exist in database''), example_db) \<and>
   Database_delete example_db (UID ''t9'')
     = (Inl (AssertionError ''Record does not exist in database''), example_db)"
proof -
  have a: "contains example_db (uid example_subject)"
    by (simp add: example_db_eq contains_def example_subject_def)
  have b: "\<not> contains example_db (UID ''t9'')"
    by (simp add: example_db_eq contains_def)
  have c: "\<not> contains example_db (uid (Topic (UID ''t9'') ''logic'' (UID ''s1'') True [] 2))"
    using b by simp
  show ?thesis
    using Database_failures[of example_db example_subject "UID ''t9''"
        "Topic (UID ''t9'') ''logic'' (UID ''s1'') True [] 2" "UID ''t9''"] a b c
    by blast
qed

text \<open>
  C6. On a database in which every record is stored under its own uid,
  \<^verbatim>\<open>query(queryTypes, query)\<close> leaves the dictionary of the queried database as it was,
  and the new database holds, under the same keys, exactly the records whose class is in
  \<^verbatim>\<open>queryTypes\<close> and on which the callable returns true.
\<close>

theorem Database_query_exact:
  assumes "db_ok db"
  shows "snd (Database_query db queryTypes q) = db \<and>
         db_ok (fst (Database_query db queryTypes q)) \<and>
         (\<forall>k record.
            map_of (fst (Database_query db queryTypes q)) k = Some record \<longleftrightarrow>
            map_of db k = Some record \<and> type_of record \<in> set queryTypes \<and> q record)"
proof -
  have d: "distinct (map fst db)" using assms by (simp add: db_ok_def)
  show ?thesis
    unfolding Database_query_filter[OF assms]
    using db_ok_filter[OF assms] map_of_filter_distinct[OF d] by simp
qed

theorem Database_query_exact_witness:
  "db_ok example_db \<and>
   snd (Database_query example_db [TopicType] active) = example_db \<and>
   db_ok (fst (Database_query example_db [TopicType] active)) \<and>
   (\<forall>k record.
      map_of (fst (Database_query example_db [TopicType] active)) k = Some record \<longleftrightarrow>
      map_of example_db k = Some record \<and> type_of record \<in> set [TopicType] \<and> active record) \<and>
   fst (Database_query example_db [TopicType] active) = [(UID ''t1'', example_topic)]"
proof -
  have "fst (Database_query example_db [TopicType] active) = [(UID ''t1'', example_topic)]"
    by (simp add: Database_query_def Database_init_def example_db_eq example_subject_def
        example_topic_def example_topic2_def)
  then show ?thesis
    using Database_query_exact[OF example_db_ok, of "[TopicType]" active] example_db_ok
    by simp
qed

section \<open>Properties of the records\<close>





text \<open>
  C2. A Topic constructed without \<^verbatim>\<open>dTime\<close> gets as \<^verbatim>\<open>lastStudy\<close> the value the
  default expression had when the module was imported, whenever the constructor is
  called: not the time of its construction, which the docstring of the class promises
  (``Otherwise, uses the current datetime'').
\<close>

theorem Topic_init_default_lastStudy:
  "lastStudy (Topic_init dTime_default uid' name' subjectUID' active' fibNumber' None)
     = dTime_default"
  by (simp add: Topic_init_def)

section \<open>Properties of the predictor\<close>

subsection \<open>Rounding and the sequence are monotone\<close>







subsection \<open>Completing a topic\<close>

lemma completeTopic_stored:
  assumes "map_of db (UID k) = Some (Topic (UID k) n s a l f)"
  shows "completeTopic db k = (Inr (), AList.update (UID k) (Topic (UID k) n s a l (f + 1)) db)"
proof -
  have c: "contains db (UID k)" using assms by (simp add: contains_map_of)
  have g: "Database_get db (UID k) = (Inr (Topic (UID k) n s a l f), db)"
    using assms c by (simp add: Database_get_def)
  have c': "contains (AList.update (UID k) (Topic (UID k) n s a l (f + 1)) db) (UID k)"
    by (simp add: contains_update)
  show ?thesis
    using c' by (simp add: completeTopic_def g Let_def Database_update_def)
qed

text \<open>
  \<^verbatim>\<open>completeTask\<close> as a whole: when the user enters the name of the only Subject of
  that name and then the name of the only Topic of that name among the Topics of the
  Subject, the Topic is completed.
\<close>

lemma prompt_accepts: "validator line \<Longrightarrow> prompt validator (line # lines) = (Inr line, lines)"
  by simp

lemma completeTask_unique:
  assumes subj: "filter (\<lambda>record. type_of record = SubjectType \<and> name record = subjectName)
                   (map snd db) = [subject]"
    and topics: "filter (\<lambda>topic. name topic = topicName)
                   (filter (\<lambda>record. type_of record = TopicType \<and>
                        toString (subjectUID record) = toString (uid subject)) (map snd db))
                 = [Topic (UID k) topicName s a l f]"
    and stored: "map_of db (UID k) = Some (Topic (UID k) topicName s a l f)"
  shows "completeTask db (subjectName # topicName # lines) =
           (Inr (), AList.update (UID k) (Topic (UID k) topicName s a l (f + 1)) db, lines)"
proof -
  let ?allTopics = "filter (\<lambda>record. type_of record = TopicType \<and>
                        toString (subjectUID record) = toString (uid subject)) (map snd db)"
  have "subject \<in> set (filter (\<lambda>record. type_of record = SubjectType \<and> name record = subjectName)
                   (map snd db))"
    unfolding subj by simp
  then have "subject \<in> set (map snd db)" "type_of subject = SubjectType" "name subject = subjectName"
    by auto
  then have "subjectName \<in> set (getSubjectNames db)"
    unfolding getSubjectNames_def by force
  then have p1: "subjectNamePrompt db (subjectName # topicName # lines)
                   = (Inr subjectName, topicName # lines)"
    by (simp add: subjectNamePrompt_def getSubjectNameValidator_def getStrListValidator_def)
  have "Topic (UID k) topicName s a l f \<in> set (filter (\<lambda>topic. name topic = topicName) ?allTopics)"
    unfolding topics by simp
  then have "Topic (UID k) topicName s a l f \<in> set ?allTopics" by simp
  then have "topicName \<in> set (map name ?allTopics)" by force
  then have p2: "prompt (getStrListValidator (map name ?allTopics)) (topicName # lines)
                   = (Inr topicName, lines)"
    by (simp add: getStrListValidator_def)
  show ?thesis
    unfolding completeTask_def p1
    by (simp add: subj Let_def p2 topics completeTopic_stored[OF stored]
        del: prompt.simps filter_filter)
qed

lemma getNthFibNumber_cached:
  assumes "fib_state fibs" "1 \<le> n" "n \<le> 2"
  shows "getNthFibNumber fibs n = (Inr 1, fibs)"
proof -
  have m: "fib_memo fibs" by (rule fib_state_memo[OF assms(1)])
  have len: "2 \<le> length fibs" using m by (simp add: fib_memo_def)
  have mx: "max (length fibs) (nat n) = length fibs" using len assms by linarith
  have "n = 1 \<or> n = 2" using assms by linarith
  then have v: "spec_F (nat n) = 1" by (auto simp: numeral_2_eq_2)
  show ?thesis
    using getNthFibNumber_memo[OF m assms(2)] fib_memo_eq[OF m] by (simp add: mx v)
qed


subsection \<open>The lookup of the subjects\<close>




subsection \<open>A dangling topic makes the loop fail\<close>



subsection \<open>The example databases\<close>

lemma scenario_db_eq:
  "scenario_db =
     [(UID ''s1'', Subject (UID ''s1'') ''maths'' True (5 / 2) 0),
      (UID ''t1'', Topic (UID ''t1'') ''algebra'' (UID ''s1'') True 1700000000000000 2)]"
  by (simp add: scenario_db_def Database_init_def)

lemma negative_db_eq:
  "negative_db =
     [(UID ''s1'', Subject (UID ''s1'') ''maths'' True (- 1) 0),
      (UID ''t1'', Topic (UID ''t1'') ''algebra'' (UID ''s1'') True 1700000000000000 2)]"
  by (simp add: negative_db_def Database_init_def)


lemma floor_5_2: "\<lfloor>5 / 2 :: rat\<rfloor> = 2"
  by (rule floor_unique) simp_all

lemma py_round_5_2: "py_round (5 / 2) = 2"
  by (simp add: py_round_def Let_def floor_5_2)

lemma py_round_of_int: "py_round (of_int n) = n"
  by (simp add: py_round_def Let_def)

lemma actualPred_scenario: "actualPred 1 (5 / 2) 0 = 2"
  by (simp add: actualPred_def py_round_5_2)


lemma subject_lookup_two:
  "subject_lookup [(su, Subject su sn sa w b), (tu, Topic tu tn ts ta td f)] = [(su, (w, b))]"
  "subject_lookup [(tu, Topic tu tn ts ta td f), (su, Subject su sn sa w b)] = [(su, (w, b))]"
  by (simp_all add: subject_lookup_def)

subsection \<open>The scenario of one Subject and one Topic\<close>

text \<open>
  With weight 2.5, bias 0 and \<^verbatim>\<open>fibNumber\<close> 2 the offset is \<^verbatim>\<open>round(1 * 2.5 + 0)\<close>,
  which is 2 and not 3: \<^verbatim>\<open>round\<close> sends a tie to the even neighbour. On the example,
  with the clock at 1700000000000000, the mapping sends the Topic to two days later, and
  not to three days later.
\<close>

theorem predict_scenario_counterexample:
  "fst (predict (clock_at 1700000000000000) plus_days_us FibNumbers_init
          (Predictor_init scenario_db))
     = Inr [(UID ''t1'', 1700000000000000 + 2 * 86400000000)] \<and>
   plus_days_us (clock_at 1700000000000000 0) 3 = Inr (1700000000000000 + 3 * 86400000000) \<and>
   fst (predict (clock_at 1700000000000000) plus_days_us FibNumbers_init
          (Predictor_init scenario_db))
     \<noteq> Inr [(UID ''t1'', 1700000000000000 + 3 * 86400000000)]"
  by code_simp

text \<open>
  C1, with the offset the code computes. For a database that holds exactly one Subject of
  weight 2.5 and bias 0 and one Topic of it with \<^verbatim>\<open>fibNumber\<close> 2, in either order of
  insertion, \<^verbatim>\<open>predict\<close> returns the mapping that sends the uid of the Topic to the
  first reading of the clock plus \<^verbatim>\<open>timedelta(days=2)\<close>, and stores it in
  \<^verbatim>\<open>timeLookup\<close>; it raises only what that addition raises.
\<close>

theorem predict_scenario:
  assumes "fib_state fibs"
    and "subject = Subject su sn sa (5 / 2) 0"
    and "topic = Topic tu tn su ta td 2"
    and "dBase self = [(su, subject), (tu, topic)] \<or> dBase self = [(tu, topic), (su, subject)]"
  shows "predict now plus_days fibs self =
           (case plus_days (now 0) 2 of
              Inl e \<Rightarrow> (Inl e, self, fibs)
            | Inr predicted \<Rightarrow>
                (Inr [(tu, predicted)], self\<lparr>timeLookup := [(tu, predicted)]\<rparr>, fibs))"
proof -
  have g: "getNthFibNumber fibs 2 = (Inr 1, fibs)"
    by (rule getNthFibNumber_cached[OF assms(1)]) simp_all
  have run: "predict_for now plus_days (subject_lookup (dBase self)) (map snd (dBase self)) [] fibs 0
      = (case plus_days (now 0) 2 of
           Inl e \<Rightarrow> (Inl e, fibs)
         | Inr predicted \<Rightarrow> (Inr [(tu, predicted)], fibs))"
    using assms(4)
  proof
    assume "dBase self = [(su, subject), (tu, topic)]"
    then show ?thesis
      by (simp add: assms(2,3) subject_lookup_two g actualPred_scenario split: sum.splits)
  next
    assume "dBase self = [(tu, topic), (su, subject)]"
    then show ?thesis
      by (simp add: assms(2,3) subject_lookup_two g actualPred_scenario split: sum.splits)
  qed
  show ?thesis
    unfolding predict_def run by (simp split: sum.splits)
qed

theorem predict_scenario_witness:
  "fib_state FibNumbers_init \<and>
   dBase (Predictor_init scenario_db) =
     [(UID ''s1'', Subject (UID ''s1'') ''maths'' True (5 / 2) 0),
      (UID ''t1'', Topic (UID ''t1'') ''algebra'' (UID ''s1'') True 1700000000000000 2)] \<and>
   plus_days_us (clock_at 1700000000000000 0) 2 = Inr 1700172800000000 \<and>
   predict (clock_at 1700000000000000) plus_days_us FibNumbers_init (Predictor_init scenario_db) =
     (Inr [(UID ''t1'', 1700172800000000)],
      (Predictor_init scenario_db)\<lparr>timeLookup := [(UID ''t1'', 1700172800000000)]\<rparr>,
      FibNumbers_init)"
proof -
  have db: "dBase (Predictor_init scenario_db) =
     [(UID ''s1'', Subject (UID ''s1'') ''maths'' True (5 / 2) 0),
      (UID ''t1'', Topic (UID ''t1'') ''algebra'' (UID ''s1'') True 1700000000000000 2)]"
    by (simp add: Predictor_init_def scenario_db_eq)
  have pd: "plus_days_us (clock_at 1700000000000000 0) 2 = Inr 1700172800000000"
    by (simp add: plus_days_us_def clock_at_def)
  show ?thesis
    using predict_scenario[OF fib_state_init refl refl disjI1[OF db],
        of "clock_at 1700000000000000" plus_days_us]
      fib_state_init db pd
    by simp
qed

subsection \<open>Completing a Topic, and the offset as \<^verbatim>\<open>fibNumber\<close> grows\<close>




subsection \<open>A Topic of no Subject\<close>




subsection \<open>The \<^verbatim>\<open>active\<close> flags\<close>

lemma same_but_active_fields:
  assumes "same_but_active r r'"
  shows "type_of r' = type_of r" "uid r' = uid r" "is_Subject r' = is_Subject r"
    "is_Subject r \<Longrightarrow> weight r' = weight r \<and> bias r' = bias r"
    "type_of r = TopicType \<Longrightarrow> fibNumber r' = fibNumber r \<and> subjectUID r' = subjectUID r"
proof -
  obtain v where v: "r' = set_active v r"
    using assms unfolding same_but_active_def by blast
  show "type_of r' = type_of r" unfolding v by (cases r) simp_all
  show "uid r' = uid r" unfolding v by (cases r) simp_all
  show "is_Subject r' = is_Subject r" unfolding v by (cases r) simp_all
  show "is_Subject r \<Longrightarrow> weight r' = weight r \<and> bias r' = bias r"
    unfolding v by (cases r) simp_all
  show "type_of r = TopicType \<Longrightarrow> fibNumber r' = fibNumber r \<and> subjectUID r' = subjectUID r"
    unfolding v by (cases r) simp_all
qed

lemma subject_lookup_active:
  "list_all2 (\<lambda>(k, r) (k', r'). k = k' \<and> same_but_active r r') db db' \<Longrightarrow>
   foldl (\<lambda>subjectWAndTup subject.
              if is_Subject subject
              then AList.update (uid subject) (weight subject, bias subject) subjectWAndTup
              else subjectWAndTup) acc (map snd db)
   = foldl (\<lambda>subjectWAndTup subject.
              if is_Subject subject
              then AList.update (uid subject) (weight subject, bias subject) subjectWAndTup
              else subjectWAndTup) acc (map snd db')"
proof (induction db db' arbitrary: acc rule: list_all2_induct)
  case Nil
  then show ?case by simp
next
  case (Cons p db p' db')
  obtain k r k' r' where p: "p = (k, r)" "p' = (k', r')" by (cases p, cases p')
  have s: "same_but_active r r'" using Cons.hyps(1) by (simp add: p)
  show ?case
    using Cons.IH same_but_active_fields[OF s] by (simp add: p)
qed

lemma predict_for_active:
  "list_all2 (\<lambda>(k, r) (k', r'). k = k' \<and> same_but_active r r') db db' \<Longrightarrow>
   predict_for now plus_days subj (map snd db) resultDict fibs calls
   = predict_for now plus_days subj (map snd db') resultDict fibs calls"
proof (induction db db' arbitrary: resultDict fibs calls rule: list_all2_induct)
  case Nil
  then show ?case by simp
next
  case (Cons p db p' db')
  obtain k r k' r' where p: "p = (k, r)" "p' = (k', r')" by (cases p, cases p')
  have s: "same_but_active r r'" using Cons.hyps(1) by (simp add: p)
  note f = same_but_active_fields[OF s]
  show ?case
  proof (cases "type_of r = TopicType")
    case False
    then show ?thesis using Cons.IH f(1) by (simp add: p)
  next
    case True
    then show ?thesis
      using Cons.IH f(1,2) f(5)[OF True]
      by (simp add: p split: prod.splits sum.splits option.splits)
  qed
qed

lemma predict_for_keys:
  "predict_for now plus_days subj items resultDict fibs calls = (Inr res, fibs') \<Longrightarrow>
   set (map fst res) = set (map fst resultDict) \<union> uid ` {r \<in> set items. type_of r = TopicType}"
proof (induction items arbitrary: resultDict fibs calls)
  case Nil
  then show ?case by auto
next
  case (Cons item items)
  show ?case
  proof (cases "type_of item = TopicType")
    case False
    then have "predict_for now plus_days subj items resultDict fibs calls = (Inr res, fibs')"
      using Cons.prems by simp
    from Cons.IH[OF this] show ?thesis using False by auto
  next
    case True
    from Cons.prems True obtain raw fibs1 w b d where
      "predict_for now plus_days subj items (AList.update (uid item) d resultDict) fibs1 (Suc calls)
         = (Inr res, fibs')"
      by (auto split: prod.splits sum.splits option.splits)
    from Cons.IH[OF this] show ?thesis
      using True dom_update[of "uid item" d resultDict] by auto
  qed
qed

text \<open>
  C10. Two databases with the same keys in the same order, whose records differ at most
  in their \<^verbatim>\<open>active\<close> flags, give the same outcome of \<^verbatim>\<open>predict\<close> (the same mapping
  or the same exception) and leave the Fibonacci engine in the same state; and a mapping
  that is returned has a key for the uid of every Topic, active or not, and no other.
\<close>

theorem predict_ignores_active:
  assumes "db_same_but_active (dBase self) (dBase self')"
  shows "fst (predict now plus_days fibs self) = fst (predict now plus_days fibs self') \<and>
         snd (snd (predict now plus_days fibs self)) = snd (snd (predict now plus_days fibs self')) \<and>
         (\<forall>resultDict. fst (predict now plus_days fibs self) = Inr resultDict \<longrightarrow>
            set (map fst resultDict)
              = uid ` {record \<in> set (map snd (dBase self)). type_of record = TopicType})"
proof -
  note h = assms[unfolded db_same_but_active_def]
  have l: "subject_lookup (dBase self) = subject_lookup (dBase self')"
    unfolding subject_lookup_def by (rule subject_lookup_active[OF h])
  have r: "predict_for now plus_days (subject_lookup (dBase self)) (map snd (dBase self)) [] fibs 0
         = predict_for now plus_days (subject_lookup (dBase self')) (map snd (dBase self')) [] fibs 0"
    unfolding l by (rule predict_for_active[OF h])
  have eq1: "fst (predict now plus_days fibs self) = fst (predict now plus_days fibs self')"
    unfolding predict_def r by (simp split: prod.splits sum.splits)
  have eq2: "snd (snd (predict now plus_days fibs self)) = snd (snd (predict now plus_days fibs self'))"
    unfolding predict_def r by (simp split: prod.splits sum.splits)
  have keys: "set (map fst resultDict)
              = uid ` {record \<in> set (map snd (dBase self)). type_of record = TopicType}"
    if "fst (predict now plus_days fibs self) = Inr resultDict" for resultDict
  proof -
    from that obtain fibs' where
      "predict_for now plus_days (subject_lookup (dBase self)) (map snd (dBase self)) [] fibs 0
         = (Inr resultDict, fibs')"
      by (auto simp: predict_def split: prod.splits sum.splits)
    from predict_for_keys[OF this] show ?thesis by simp
  qed
  from eq1 eq2 keys show ?thesis by blast
qed

theorem predict_ignores_active_witness:
  "db_same_but_active (dBase (Predictor_init scenario_db)) (dBase (Predictor_init inactive_db)) \<and>
   fst (predict (clock_at 0) plus_days_us FibNumbers_init (Predictor_init scenario_db))
     = fst (predict (clock_at 0) plus_days_us FibNumbers_init (Predictor_init inactive_db)) \<and>
   snd (snd (predict (clock_at 0) plus_days_us FibNumbers_init (Predictor_init scenario_db)))
     = snd (snd (predict (clock_at 0) plus_days_us FibNumbers_init (Predictor_init inactive_db))) \<and>
   fst (predict (clock_at 0) plus_days_us FibNumbers_init (Predictor_init inactive_db))
     = Inr [(UID ''t1'', 172800000000)]"
proof -
  have a: "db_same_but_active (dBase (Predictor_init scenario_db))
             (dBase (Predictor_init inactive_db))"
    by (simp add: db_same_but_active_def same_but_active_def Predictor_init_def scenario_db_eq
        inactive_db_def Database_init_def)
  have b: "fst (predict (clock_at 0) plus_days_us FibNumbers_init (Predictor_init inactive_db))
     = Inr [(UID ''t1'', 172800000000)]"
    by code_simp
  show ?thesis
    using predict_ignores_active[OF a, of "clock_at 0" plus_days_us FibNumbers_init] a b
    by simp
qed

end
